theory Spec2Isabelle
  imports Main "HOL-Library.Sublist" "HOL-Library.Word"
begin

section \<open>JavaScript values used by the two routes\<close>

text \<open>
  The recommendation route (\<^verbatim>\<open>src/app/api/recommend/route.ts\<close>) and the saved-books
  route are TypeScript. Values that the code tests for presence are options:
  \<open>None\<close> stands for \<^verbatim>\<open>undefined\<close> or \<^verbatim>\<open>null\<close>, which every test in the two routes
  (\<^verbatim>\<open>&&\<close>, \<^verbatim>\<open>?.\<close>, \<^verbatim>\<open>??\<close>, \<^verbatim>\<open>!x\<close>, \<^verbatim>\<open>x ? a : b\<close>) treats alike.

  A JavaScript string is a sequence of UTF-16 code units. A \<^typ>\<open>char\<close> is one code
  unit below 256, so a \<^typ>\<open>string\<close> is a JavaScript string over Latin-1 and
  \<^const>\<open>length\<close> is its \<^verbatim>\<open>.length\<close>. The subject slug, where the alphabet matters, is
  modelled a second time over all strings of 16-bit code units. Numbers are the
  integers among the JavaScript numbers.
\<close>

definition truthyString :: "string option \<Rightarrow> bool" where
  "truthyString v = (case v of None \<Rightarrow> False | Some s \<Rightarrow> s \<noteq> [])"

definition truthyNumber :: "int option \<Rightarrow> bool" where
  "truthyNumber v = (case v of None \<Rightarrow> False | Some n \<Rightarrow> n \<noteq> 0)"

text \<open>
  White space as \<^verbatim>\<open>String.prototype.trim\<close> and the regular expression class \<^verbatim>\<open>\s\<close>
  see it, below 256: TAB, LF, VT, FF, CR, SPACE and NO-BREAK SPACE.
\<close>

definition isWhiteSpace :: "char \<Rightarrow> bool" where
  "isWhiteSpace c \<longleftrightarrow>
     c \<in> set [CHR 0x09, CHR 0x0A, CHR 0x0B, CHR 0x0C, CHR 0x0D, CHR 0x20, CHR 0xA0]"

definition trim :: "string \<Rightarrow> string" where
  "trim s = rev (dropWhile isWhiteSpace (rev (dropWhile isWhiteSpace s)))"

text \<open>
  \<^verbatim>\<open>String.prototype.toLowerCase\<close> below 256: the letters A to Z, and the Latin-1
  capitals U+00C0 to U+00DE except the multiplication sign U+00D7, move up by 32.
\<close>

definition lowerUnit :: "char \<Rightarrow> char" where
  "lowerUnit c =
     (let n = (of_char c :: nat)
      in if (65 \<le> n \<and> n \<le> 90) \<or> (192 \<le> n \<and> n \<le> 222 \<and> n \<noteq> 215)
         then char_of (n + 32) else c)"

definition toLowerCase :: "string \<Rightarrow> string" where
  "toLowerCase s = map lowerUnit s"

text \<open>
  \<^verbatim>\<open>s.replace(/[...]/g, r)\<close> for a character class: every code unit of the class is
  replaced by \<open>r\<close>, scanning from the left.
\<close>

fun replaceClass :: "('a \<Rightarrow> bool) \<Rightarrow> 'a list \<Rightarrow> 'a list \<Rightarrow> 'a list" where
  "replaceClass cls r [] = []"
| "replaceClass cls r (c # cs) =
     (if cls c then r @ replaceClass cls r cs else c # replaceClass cls r cs)"

text \<open>
  \<^verbatim>\<open>s.replace(/[...]+/g, r)\<close>: at a code unit of the class the greedy match takes
  the whole run that starts there, \<open>r\<close> is emitted once, and the scan resumes behind
  the run.
\<close>

function replaceClassPlus :: "('a \<Rightarrow> bool) \<Rightarrow> 'a list \<Rightarrow> 'a list \<Rightarrow> 'a list" where
  "replaceClassPlus cls r [] = []"
| "replaceClassPlus cls r (c # cs) =
     (if cls c then r @ replaceClassPlus cls r (dropWhile cls cs)
      else c # replaceClassPlus cls r cs)"
  by pat_completeness auto
termination
  by (relation "measure (\<lambda>(cls, r, s). length s)")
     (auto simp: length_dropWhile_le less_Suc_eq_le)

text \<open>
  \<^verbatim>\<open>encodeURIComponent\<close>: letters, digits and \<^verbatim>\<open>- _ . ! ~ * ' ( )\<close> are kept; every other
  code unit is written as its UTF-8 bytes, each byte as \<^verbatim>\<open>%XX\<close> with capital hex digits.
  (Below 256 there are no surrogates, so the function never throws.)
\<close>

definition uriUnescaped :: "char \<Rightarrow> bool" where
  "uriUnescaped c =
     (let n = (of_char c :: nat)
      in (65 \<le> n \<and> n \<le> 90) \<or> (97 \<le> n \<and> n \<le> 122) \<or> (48 \<le> n \<and> n \<le> 57) \<or>
         c \<in> set [CHR ''-'', CHR ''_'', CHR ''.'', CHR ''!'', CHR ''~'', CHR ''*'',
                   CHR 0x27, CHR ''('', CHR '')''])"

definition hexDigit :: "nat \<Rightarrow> char" where
  "hexDigit d = ''0123456789ABCDEF'' ! d"

definition percentByte :: "nat \<Rightarrow> string" where
  "percentByte b = [CHR ''%'', hexDigit (b div 16), hexDigit (b mod 16)]"

definition utf8Bytes :: "char \<Rightarrow> nat list" where
  "utf8Bytes c =
     (let n = (of_char c :: nat)
      in if n < 128 then [n] else [192 + n div 64, 128 + n mod 64])"

definition encodeURIComponent :: "string \<Rightarrow> string" where
  "encodeURIComponent s =
     concat (map (\<lambda>c. if uriUnescaped c then [c] else concat (map percentByte (utf8Bytes c))) s)"

text \<open>
  A number inside a template literal is printed in decimal, with a minus sign when
  negative (for integers of magnitude below \<open>10\<^sup>2\<^sup>1\<close> JavaScript prints exactly these
  digits).
\<close>

definition digitChar :: "nat \<Rightarrow> char" where
  "digitChar d = ''0123456789'' ! d"

fun decimalDigits :: "nat \<Rightarrow> string" where
  "decimalDigits n =
     (if n < 10 then [digitChar n]
      else decimalDigits (n div 10) @ [digitChar (n mod 10)])"

declare decimalDigits.simps [simp del]

definition numberToString :: "int \<Rightarrow> string" where
  "numberToString n =
     (if n < 0 then CHR ''-'' # decimalDigits (nat (- n)) else decimalDigits (nat n))"


section \<open>The recommendation route\<close>

definition OPEN_LIBRARY_BASE :: string where
  "OPEN_LIBRARY_BASE = ''https://openlibrary.org''"

definition MAX_RESULTS :: nat where
  "MAX_RESULTS = 10"

text \<open>
  The three object types of the route. The type declarations give \<^verbatim>\<open>key\<close> and
  \<^verbatim>\<open>title\<close> as strings, but the values come from parsed JSON and the route itself
  tests them for presence, so both are optional here.
\<close>

record SearchDoc =
  key :: "string option"
  title :: "string option"
  author_name :: "string list option"
  cover_i :: "int option"
  first_publish_year :: "int option"
  subject :: "string list option"
  subject_facet :: "string list option"

record Author =
  name :: string

record SubjectWork =
  key :: "string option"
  title :: "string option"
  authors :: "Author list option"
  cover_id :: "int option"
  first_publish_year :: "int option"
  subject :: "string list option"

record Book =
  key :: "string option"
  title :: "string option"
  author :: string
  coverImage :: "string option"
  year :: "int option"
  subjects :: "string list option"

definition coverUrlFromId :: "int option \<Rightarrow> string option" where
  "coverUrlFromId coverId =
     (case coverId of
        None \<Rightarrow> None
      | Some n \<Rightarrow>
          if truthyNumber (Some n)
          then Some (''https://covers.openlibrary.org/b/id/'' @ numberToString n @ ''-L.jpg'')
          else None)"

definition mapDocToBook :: "SearchDoc \<Rightarrow> Book" where
  "mapDocToBook doc =
     \<lparr> Book.key = SearchDoc.key doc,
       Book.title = SearchDoc.title doc,
       Book.author =
         (case SearchDoc.author_name doc of
            Some (a # _) \<Rightarrow> a
          | _ \<Rightarrow> ''Unknown author''),
       Book.coverImage = coverUrlFromId (SearchDoc.cover_i doc),
       Book.year = SearchDoc.first_publish_year doc,
       Book.subjects =
         (case SearchDoc.subject doc of
            Some s \<Rightarrow> Some s
          | None \<Rightarrow> SearchDoc.subject_facet doc) \<rparr>"

definition mapSubjectWorkToBook :: "SubjectWork \<Rightarrow> Book" where
  "mapSubjectWorkToBook work =
     \<lparr> Book.key = SubjectWork.key work,
       Book.title = SubjectWork.title work,
       Book.author =
         (case SubjectWork.authors work of
            Some (a # _) \<Rightarrow> Author.name a
          | _ \<Rightarrow> ''Unknown author''),
       Book.coverImage = coverUrlFromId (SubjectWork.cover_id work),
       Book.year = SubjectWork.first_publish_year work,
       Book.subjects = SubjectWork.subject work \<rparr>"


subsection \<open>The catalog, as the route reaches it through \<^verbatim>\<open>fetch\<close>\<close>

text \<open>
  A \<^verbatim>\<open>fetch\<close> either rejects (a network failure) or resolves to a response with its
  \<^verbatim>\<open>ok\<close> flag; \<^verbatim>\<open>response.json()\<close> either rejects (the body is not JSON) or gives the
  parsed object, which has the shape of the route's type assertion. The catalog answers
  each of the two requests of one call once, so it is a pair of functions; the requests the route issues are logged in order.
  The search request is logged by the value of its \<^verbatim>\<open>q\<close> parameter (the URL object's
  own serialisation is not modelled), the subject request by its whole URL.
\<close>

datatype 'a json_body = NotJson | Json 'a

datatype 'a fetched = Rejected | Response bool "'a json_body"

record SearchData =
  docs :: "SearchDoc list option"

record SubjectData =
  works :: "SubjectWork list option"

record catalog =
  fetchSearch :: "string \<Rightarrow> SearchData fetched"
  fetchSubject :: "string \<Rightarrow> SubjectData fetched"

datatype request = SearchRequest string | SubjectRequest string

datatype recommend_json =
    ErrorJson string
  | ResultJson "Book option" "Book list" "string option"

record 'a NextResponse =
  status :: nat
  body :: 'a

definition createErrorResponse :: "string \<Rightarrow> nat \<Rightarrow> recommend_json NextResponse" where
  "createErrorResponse message st = \<lparr> status = st, body = ErrorJson message \<rparr>"

definition NextResponse_json :: "'a \<Rightarrow> 'a NextResponse" where
  "NextResponse_json b = \<lparr> status = 200, body = b \<rparr>"

subsection \<open>Assembling the recommendations\<close>

text \<open>
  The two mutable locals of \<^verbatim>\<open>GET\<close>: the set \<^verbatim>\<open>uniqueKeys\<close> and the array
  \<^verbatim>\<open>recommendations\<close>. Each \<^verbatim>\<open>forEach\<close> callback is a function on this pair; a
  \<^verbatim>\<open>return\<close> inside a callback leaves the pair as it is and goes to the next element,
  so \<^verbatim>\<open>xs.forEach(f)\<close> is \<^term>\<open>fold f xs\<close>.
\<close>

type_synonym assembly = "string option set \<times> Book list"

text \<open>The callback of lines 136 to 143.\<close>

definition pushSubjectWork :: "SubjectWork \<Rightarrow> assembly \<Rightarrow> assembly" where
  "pushSubjectWork work st =
     (case st of (uniqueKeys, recommendations) \<Rightarrow>
        if length recommendations \<ge> MAX_RESULTS then (uniqueKeys, recommendations)
        else (insert (SubjectWork.key work) uniqueKeys,
              recommendations @ [mapSubjectWorkToBook work]))"

text \<open>The callback of lines 148 to 155.\<close>

definition pushSearchDoc :: "SearchDoc \<Rightarrow> assembly \<Rightarrow> assembly" where
  "pushSearchDoc doc st =
     (case st of (uniqueKeys, recommendations) \<Rightarrow>
        if length recommendations \<ge> MAX_RESULTS \<or> SearchDoc.key doc \<in> uniqueKeys
        then (uniqueKeys, recommendations)
        else (insert (SearchDoc.key doc) uniqueKeys,
              recommendations @ [mapDocToBook doc]))"

text \<open>
  Lines 134 to 143: \<^verbatim>\<open>works?.filter(...).forEach(...)\<close>. The \<^verbatim>\<open>filter\<close> runs to its
  end, against \<^verbatim>\<open>uniqueKeys\<close> as it is before the loop, and only then the \<^verbatim>\<open>forEach\<close>
  starts.
\<close>

definition addSubjectWorks :: "SubjectWork list option \<Rightarrow> assembly \<Rightarrow> assembly" where
  "addSubjectWorks ws st =
     (case ws of
        None \<Rightarrow> st
      | Some l \<Rightarrow>
          fold pushSubjectWork
            (filter (\<lambda>work. truthyString (SubjectWork.key work) \<and>
                             SubjectWork.key work \<notin> fst st) l)
            st)"

text \<open>Lines 147 to 156.\<close>

definition addSearchDocs :: "SearchDoc list \<Rightarrow> assembly \<Rightarrow> assembly" where
  "addSearchDocs rest st =
     (if length (snd st) < MAX_RESULTS then fold pushSearchDoc rest st else st)"

text \<open>Lines 109 to 113.\<close>

definition primarySubject :: "SearchDoc \<Rightarrow> string option" where
  "primarySubject seedDoc =
     (let allSubjects =
            (case SearchDoc.subject seedDoc of None \<Rightarrow> [] | Some l \<Rightarrow> l) @
            (case SearchDoc.subject_facet seedDoc of None \<Rightarrow> [] | Some l \<Rightarrow> l)
      in case allSubjects of [] \<Rightarrow> None | s # _ \<Rightarrow> Some s)"

text \<open>Lines 116 to 120.\<close>

definition subjectSlug :: "string \<Rightarrow> string" where
  "subjectSlug s =
     replaceClassPlus isWhiteSpace ''_''
       (replaceClass (\<lambda>c. c = CHR ''.'' \<or> c = CHR '','') [] (toLowerCase s))"

definition subjectUrl :: "string \<Rightarrow> string" where
  "subjectUrl slug =
     OPEN_LIBRARY_BASE @ ''/subjects/'' @ encodeURIComponent slug @ ''.json?limit=30''"

text \<open>
  Lines 115 to 145, the subject lookup. The result is \<open>None\<close> when an exception leaves
  the block (the \<^verbatim>\<open>fetch\<close> or \<^verbatim>\<open>json()\<close> rejects), which the \<^verbatim>\<open>catch\<close> of \<^verbatim>\<open>GET\<close>
  receives; the second component is the requests issued.
\<close>

definition lookupSubject ::
  "catalog \<Rightarrow> SearchDoc \<Rightarrow> assembly \<Rightarrow> assembly option \<times> request list" where
  "lookupSubject w seedDoc st =
     (case primarySubject seedDoc of
        None \<Rightarrow> (Some st, [])
      | Some p \<Rightarrow>
          if truthyString (Some p) then
            (let url = subjectUrl (subjectSlug p)
             in case fetchSubject w url of
                  Rejected \<Rightarrow> (None, [SubjectRequest url])
                | Response ok b \<Rightarrow>
                    if ok then
                      (case b of
                         NotJson \<Rightarrow> (None, [SubjectRequest url])
                       | Json subjectData \<Rightarrow>
                           (Some (addSubjectWorks (works subjectData) st),
                            [SubjectRequest url]))
                    else (Some st, [SubjectRequest url]))
          else (Some st, []))"

text \<open>Lines 93 to 161: from the parsed search response to the response of the route.\<close>

definition qualifies :: "SearchDoc \<Rightarrow> bool" where
  "qualifies doc \<longleftrightarrow> truthyString (SearchDoc.key doc) \<and> truthyString (SearchDoc.title doc)"

definition unexpectedError :: "recommend_json NextResponse" where
  "unexpectedError = createErrorResponse ''Unexpected error while fetching data.'' 500"

definition assemble ::
  "catalog \<Rightarrow> SearchData \<Rightarrow> recommend_json NextResponse \<times> request list" where
  "assemble w searchData =
     (case (case docs searchData of None \<Rightarrow> [] | Some l \<Rightarrow> filter qualifies l) of
        [] \<Rightarrow>
          (NextResponse_json
             (ResultJson None [] (Some ''We could not find any matches for that book.'')),
           [])
      | seedDoc # rest \<Rightarrow>
          (let seedBook = mapDocToBook seedDoc
           in case lookupSubject w seedDoc ({Book.key seedBook}, []) of
                (None, reqs) \<Rightarrow> (unexpectedError, reqs)
              | (Some st, reqs) \<Rightarrow>
                  (NextResponse_json
                     (ResultJson (Some seedBook)
                        (take MAX_RESULTS (snd (addSearchDocs rest st))) None),
                   reqs)))"

text \<open>
  The route. Its argument is the value of \<^verbatim>\<open>searchParams.get("query")\<close>: \<open>None\<close> when
  the parameter is missing.
\<close>

definition GET :: "catalog \<Rightarrow> string option \<Rightarrow> recommend_json NextResponse \<times> request list" where
  "GET w param =
     (case map_option trim param of
        None \<Rightarrow> (createErrorResponse ''Missing required query parameter.'' 400, [])
      | Some query \<Rightarrow>
          if query = [] then
            (createErrorResponse ''Missing required query parameter.'' 400, [])
          else if length query < 2 then
            (createErrorResponse ''Query must be at least 2 characters long.'' 400, [])
          else
            (case fetchSearch w query of
               Rejected \<Rightarrow> (unexpectedError, [SearchRequest query])
             | Response ok b \<Rightarrow>
                 if \<not> ok then
                   (createErrorResponse
                      ''Unable to reach the Open Library search service.'' 502,
                    [SearchRequest query])
                 else
                   (case b of
                      NotJson \<Rightarrow> (unexpectedError, [SearchRequest query])
                    | Json searchData \<Rightarrow>
                        (case assemble w searchData of
                           (res, reqs) \<Rightarrow> (res, SearchRequest query # reqs)))))"


section \<open>The subject slug over all strings\<close>

text \<open>
  Lines 116 to 120 once more, now over every JavaScript string: a list of 16-bit code
  units. \<^verbatim>\<open>\s\<close> is the white space and the line terminators of ECMAScript.
  \<^verbatim>\<open>toLowerCase\<close> on a string of code units below 256 moves the Latin-1 capitals up by
  32; for any other string it follows the Unicode case tables of the runtime, which are
  an argument here (\<open>beyondLatin1\<close>).
\<close>

type_synonym unit16 = "16 word"

definition js :: "string \<Rightarrow> unit16 list" where
  "js s = map of_char s"

definition isWhiteSpaceUnit :: "unit16 \<Rightarrow> bool" where
  "isWhiteSpaceUnit c \<longleftrightarrow>
     c \<in> set [0x0009, 0x000A, 0x000B, 0x000C, 0x000D, 0x0020, 0x00A0, 0x1680,
               0x2000, 0x2001, 0x2002, 0x2003, 0x2004, 0x2005, 0x2006, 0x2007,
               0x2008, 0x2009, 0x200A, 0x2028, 0x2029, 0x202F, 0x205F, 0x3000, 0xFEFF]"

definition lowerLatin1 :: "unit16 \<Rightarrow> unit16" where
  "lowerLatin1 c =
     (let n = unat c
      in if (65 \<le> n \<and> n \<le> 90) \<or> (192 \<le> n \<and> n \<le> 222 \<and> n \<noteq> 215)
         then c + 32 else c)"

definition toLowerCaseUnits :: "(unit16 list \<Rightarrow> unit16 list) \<Rightarrow> unit16 list \<Rightarrow> unit16 list" where
  "toLowerCaseUnits beyondLatin1 s =
     (if list_all (\<lambda>c. unat c < 256) s then map lowerLatin1 s else beyondLatin1 s)"

definition subjectSlugUnits :: "(unit16 list \<Rightarrow> unit16 list) \<Rightarrow> unit16 list \<Rightarrow> unit16 list" where
  "subjectSlugUnits beyondLatin1 s =
     replaceClassPlus isWhiteSpaceUnit [0x5F]
       (replaceClass (\<lambda>c. c = 0x2E \<or> c = 0x2C) [] (toLowerCaseUnits beyondLatin1 s))"

text \<open>
  \<^verbatim>\<open>encodeURIComponent\<close> as ECMAScript defines it: a code unit of the unescaped set is
  kept; at any other code unit the code point that starts there is read (a surrogate
  pair is one code point), an unpaired surrogate throws \<^verbatim>\<open>URIError\<close> (the result is
  \<open>None\<close>, and the \<^verbatim>\<open>catch\<close> of \<^verbatim>\<open>GET\<close> answers 500), and the UTF-8 octets of the code
  point are written as \<^verbatim>\<open>%XX\<close>.
\<close>

definition uriUnescapedUnit :: "unit16 \<Rightarrow> bool" where
  "uriUnescapedUnit c =
     (let n = unat c
      in (65 \<le> n \<and> n \<le> 90) \<or> (97 \<le> n \<and> n \<le> 122) \<or> (48 \<le> n \<and> n \<le> 57) \<or>
         n \<in> set [45, 95, 46, 33, 126, 42, 39, 40, 41])"

definition isLeadSurrogate :: "unit16 \<Rightarrow> bool" where
  "isLeadSurrogate c \<longleftrightarrow> 0xD800 \<le> unat c \<and> unat c \<le> 0xDBFF"

definition isTrailSurrogate :: "unit16 \<Rightarrow> bool" where
  "isTrailSurrogate c \<longleftrightarrow> 0xDC00 \<le> unat c \<and> unat c \<le> 0xDFFF"

definition utf8 :: "nat \<Rightarrow> nat list" where
  "utf8 cp =
     (if cp < 0x80 then [cp]
      else if cp < 0x800 then [0xC0 + cp div 64, 0x80 + cp mod 64]
      else if cp < 0x10000 then
        [0xE0 + cp div 4096, 0x80 + cp div 64 mod 64, 0x80 + cp mod 64]
      else [0xF0 + cp div 262144, 0x80 + cp div 4096 mod 64, 0x80 + cp div 64 mod 64,
            0x80 + cp mod 64])"

definition pairCodePoint :: "unit16 \<Rightarrow> unit16 \<Rightarrow> nat" where
  "pairCodePoint lead trail = 0x10000 + (unat lead - 0xD800) * 0x400 + (unat trail - 0xDC00)"

definition percentOctets :: "nat \<Rightarrow> string" where
  "percentOctets cp = concat (map percentByte (utf8 cp))"

fun encodeURIComponentUnits :: "unit16 list \<Rightarrow> string option" where
  "encodeURIComponentUnits [] = Some []"
| "encodeURIComponentUnits (c # cs) =
     (if uriUnescapedUnit c then
        map_option ((#) (char_of (unat c))) (encodeURIComponentUnits cs)
      else if isLeadSurrogate c then
        (case cs of
           [] \<Rightarrow> None
         | d # ds \<Rightarrow>
             if isTrailSurrogate d then
               map_option ((@) (percentOctets (pairCodePoint c d))) (encodeURIComponentUnits ds)
             else None)
      else if isTrailSurrogate c then None
      else map_option ((@) (percentOctets (unat c))) (encodeURIComponentUnits cs))"

text \<open>
  The functions on \<^typ>\<open>string\<close> above are these functions on the strings of code units
  below 256, which \<^const>\<open>js\<close> embeds (lemma \<open>slug_agrees\<close> below).
\<close>


section \<open>The saved-books route\<close>

subsection \<open>The clock\<close>











subsection \<open>The document store\<close>


record SavedBook = Book +
  savedAt :: string



record couchSent =
  url :: string
  httpMethod :: string
  headers :: "(string \<times> string) list"
  document :: SavedBook





subsection \<open>The route\<close>

text \<open>
  \<^verbatim>\<open>POST\<close> of the saved-books route. Its last argument is the outcome of
  \<^verbatim>\<open>request.json()\<close>: an exception when the body is not JSON, else an object of the
  shape of the route's type assertion.
\<close>

record SaveRequest =
  book :: "Book option"





section \<open>Specification-level definitions\<close>

text \<open>
  The slug as the specification words it: lower-case the string, strip commas and
  periods, replace each run of white space by one underscore, percent-encode the
  result. A run is followed with a flag that tells whether the previous code unit was
  white space: the first unit of a run becomes the underscore, every further unit of
  the run vanishes. Percent-encoding is that of a URL path segment: the string is
  read as code points (which fails on an unpaired surrogate), the code points are
  written in UTF-8, and every octet that is not a letter, a digit or one of
  \<^verbatim>\<open>- _ . ! ~ * ' ( )\<close> becomes \<^verbatim>\<open>%XX\<close>.
\<close>

fun codePoints :: "unit16 list \<Rightarrow> nat list option" where
  "codePoints [] = Some []"
| "codePoints (c # cs) =
     (if isLeadSurrogate c then
        (case cs of
           [] \<Rightarrow> None
         | d # ds \<Rightarrow>
             if isTrailSurrogate d then map_option ((#) (pairCodePoint c d)) (codePoints ds)
             else None)
      else if isTrailSurrogate c then None
      else map_option ((#) (unat c)) (codePoints cs))"

definition unreservedOctet :: "nat \<Rightarrow> bool" where
  "unreservedOctet b \<longleftrightarrow>
     (65 \<le> b \<and> b \<le> 90) \<or> (97 \<le> b \<and> b \<le> 122) \<or> (48 \<le> b \<and> b \<le> 57) \<or>
     b \<in> set [45, 95, 46, 33, 126, 42, 39, 40, 41]"

definition percentEncodeOctets :: "nat list \<Rightarrow> string" where
  "percentEncodeOctets bs =
     concat (map (\<lambda>b. if unreservedOctet b then [char_of b] else percentByte b) bs)"

definition specPercentEncode :: "unit16 list \<Rightarrow> string option" where
  "specPercentEncode s =
     map_option (\<lambda>cps. percentEncodeOctets (concat (map utf8 cps))) (codePoints s)"

fun runsToUnderscore :: "('a \<Rightarrow> bool) \<Rightarrow> 'a \<Rightarrow> bool \<Rightarrow> 'a list \<Rightarrow> 'a list" where
  "runsToUnderscore ws u inRun [] = []"
| "runsToUnderscore ws u inRun (c # cs) =
     (if ws c
      then (if inRun then [] else [u]) @ runsToUnderscore ws u True cs
      else c # runsToUnderscore ws u False cs)"

definition specSlugUnits :: "(unit16 list \<Rightarrow> unit16 list) \<Rightarrow> unit16 list \<Rightarrow> string option" where
  "specSlugUnits beyondLatin1 s =
     specPercentEncode
       (runsToUnderscore isWhiteSpaceUnit 0x5F False
          (filter (\<lambda>c. c \<noteq> 0x2C \<and> c \<noteq> 0x2E) (toLowerCaseUnits beyondLatin1 s)))"






text \<open>
  The fallback as the specification words it: the remaining search hits in their
  order, leaving out every hit whose key is already used (the seed's key, or the key of
  a hit kept before it).
\<close>

fun unseenHits :: "string option set \<Rightarrow> SearchDoc list \<Rightarrow> SearchDoc list" where
  "unseenHits used [] = []"
| "unseenHits used (d # ds) =
     (if SearchDoc.key d \<in> used then unseenHits used ds
      else d # unseenHits (insert (SearchDoc.key d) used) ds)"


section \<open>Example catalogs\<close>

definition exampleDoc :: "string \<Rightarrow> string \<Rightarrow> string list \<Rightarrow> SearchDoc" where
  "exampleDoc k t ss =
     \<lparr> SearchDoc.key = Some k, SearchDoc.title = Some t, SearchDoc.author_name = None,
       SearchDoc.cover_i = None, SearchDoc.first_publish_year = None,
       SearchDoc.subject = Some ss, SearchDoc.subject_facet = None \<rparr>"

definition exampleWork :: "string \<Rightarrow> string option \<Rightarrow> SubjectWork" where
  "exampleWork k t =
     \<lparr> SubjectWork.key = Some k, SubjectWork.title = t, SubjectWork.authors = None,
       SubjectWork.cover_id = None, SubjectWork.first_publish_year = None,
       SubjectWork.subject = None \<rparr>"

definition exampleBook :: "string \<Rightarrow> string option \<Rightarrow> string list option \<Rightarrow> Book" where
  "exampleBook k t ss =
     \<lparr> Book.key = Some k, Book.title = t, Book.author = ''Unknown author'',
       Book.coverImage = None, Book.year = None, Book.subjects = ss \<rparr>"

text \<open>
  A catalog that answers the search for \<^verbatim>\<open>Circe\<close> with the given hits and the lookup of
  the subject \<^verbatim>\<open>mythology\<close> with the given response, and nothing else.
\<close>

definition exampleCatalog :: "SearchDoc list \<Rightarrow> SubjectData fetched \<Rightarrow> catalog" where
  "exampleCatalog hits subjectResponse =
     \<lparr> fetchSearch =
         (\<lambda>q. if q = ''Circe'' then Response True (Json \<lparr> docs = Some hits \<rparr>) else Rejected),
       fetchSubject =
         (\<lambda>url. if url = ''https://openlibrary.org/subjects/mythology.json?limit=30''
                then subjectResponse else Rejected) \<rparr>"

definition circe :: SearchDoc where
  "circe = exampleDoc ''/works/OL123W'' ''Circe'' [''Mythology'']"

text \<open>A subject response that lists one work twice.\<close>

definition repeatedWorkCatalog :: catalog where
  "repeatedWorkCatalog =
     exampleCatalog [circe]
       (Response True
          (Json \<lparr> works = Some [exampleWork ''/works/OL1W'' (Some ''Galatea''),
                                exampleWork ''/works/OL1W'' (Some ''Galatea'')] \<rparr>))"

text \<open>A subject response with twelve different works.\<close>

definition twelveWorksCatalog :: catalog where
  "twelveWorksCatalog =
     exampleCatalog [circe]
       (Response True
          (Json \<lparr> works =
             Some (map (\<lambda>k. exampleWork (''/works/OL'' @ k) (Some k))
                     [''a'', ''b'', ''c'', ''d'', ''e'', ''f'',
                      ''g'', ''h'', ''i'', ''j'', ''k'', ''l'']) \<rparr>))"

text \<open>A subject lookup that answers with a non-success status.\<close>

definition failingSubjectCatalog :: catalog where
  "failingSubjectCatalog =
     exampleCatalog
       [circe,
        exampleDoc ''/works/OL2W'' ''Circe. A novel'' [],
        exampleDoc ''/works/OL123W'' ''Circe (reprint)'' [],
        exampleDoc ''/works/OL2W'' ''Circe. A novel (reprint)'' [],
        exampleDoc ''/works/OL3W'' ''The Song of Achilles'' []]
       (Response False NotJson)"

text \<open>A subject response with a work that has a key and no title.\<close>

definition untitledWorkCatalog :: catalog where
  "untitledWorkCatalog =
     exampleCatalog [circe]
       (Response True (Json \<lparr> works = Some [exampleWork ''/works/OL4W'' None] \<rparr>))"

text \<open>
  A case table that changes nothing, as the runtime's on a string without cased
  letters.
\<close>

definition unchangedCase :: "unit16 list \<Rightarrow> unit16 list" where
  "unchangedCase s = s"





text \<open>Search hits of which none has both a key and a title.\<close>

definition noQualifyingHitCatalog :: catalog where
  "noQualifyingHitCatalog =
     exampleCatalog
       [circe \<lparr> SearchDoc.title := None \<rparr>,
        circe \<lparr> SearchDoc.key := None \<rparr>,
        circe \<lparr> SearchDoc.key := Some [] \<rparr>]
       Rejected"

text \<open>An assembly whose recommendation list is full.\<close>

definition fullAssembly :: assembly where
  "fullAssembly = ({}, replicate 10 (exampleBook ''/works/OL1W'' (Some ''Galatea'') None))"


section \<open>The cover image URL\<close>

text \<open>
  Claim C10. \<^verbatim>\<open>coverUrlFromId\<close> tests the cover id by truthiness: for the number 0 it
  returns \<^verbatim>\<open>null\<close>, exactly as for an absent id, and a book mapped from a search hit or
  from a subject work whose cover id is 0 gets no cover image.
\<close>

theorem coverUrlFromId_zero:
  "coverUrlFromId (Some 0) = None \<and>
   coverUrlFromId (Some 0) = coverUrlFromId None \<and>
   (SearchDoc.cover_i doc = Some 0 \<longrightarrow> Book.coverImage (mapDocToBook doc) = None) \<and>
   (SubjectWork.cover_id work = Some 0 \<longrightarrow>
      Book.coverImage (mapSubjectWorkToBook work) = None)"
  by (simp add: coverUrlFromId_def truthyNumber_def mapDocToBook_def mapSubjectWorkToBook_def)

theorem coverUrlFromId_zero_witness:
  "SearchDoc.cover_i (circe \<lparr> SearchDoc.cover_i := Some 0 \<rparr>) = Some 0 \<and>
   Book.coverImage (mapDocToBook (circe \<lparr> SearchDoc.cover_i := Some 0 \<rparr>)) = None \<and>
   SubjectWork.cover_id (exampleWork ''/works/OL1W'' None \<lparr> SubjectWork.cover_id := Some 0 \<rparr>)
     = Some 0 \<and>
   Book.coverImage
     (mapSubjectWorkToBook
        (exampleWork ''/works/OL1W'' None \<lparr> SubjectWork.cover_id := Some 0 \<rparr>)) = None"
  using coverUrlFromId_zero [of "circe \<lparr> SearchDoc.cover_i := Some 0 \<rparr>"
      "exampleWork ''/works/OL1W'' None \<lparr> SubjectWork.cover_id := Some 0 \<rparr>"]
  by simp

text \<open>
  Claim C7, as stated, promises a URL for every present cover id. The id 0 is present
  and gets none.
\<close>

theorem coverUrlFromId_present_zero_absent: "coverUrlFromId (Some 0) = None"
  by (simp add: coverUrlFromId_def truthyNumber_def)

text \<open>
  Claim C7, amended. \<^verbatim>\<open>coverUrlFromId\<close> returns absent for an absent cover id; for every
  present cover id other than 0 it returns the fixed template with the decimal
  digits of the id in it; whatever the argument, the result is never the empty string
  and never the string \<^verbatim>\<open>null\<close> or \<^verbatim>\<open>undefined\<close>.
\<close>

theorem coverUrlFromId_template:
  "coverUrlFromId None = None \<and>
   (n \<noteq> 0 \<longrightarrow>
      coverUrlFromId (Some n) =
        Some (''https://covers.openlibrary.org/b/id/'' @ numberToString n @ ''-L.jpg'')) \<and>
   coverUrlFromId v \<noteq> Some [] \<and>
   coverUrlFromId v \<noteq> Some ''null'' \<and>
   coverUrlFromId v \<noteq> Some ''undefined''"
  by (simp add: coverUrlFromId_def truthyNumber_def split: option.split)

theorem coverUrlFromId_template_witness:
  "(12345 :: int) \<noteq> 0 \<and>
   coverUrlFromId (Some 12345) = Some ''https://covers.openlibrary.org/b/id/12345-L.jpg''"
proof -
  have "numberToString 12345 = ''12345''"
    by (simp add: numberToString_def decimalDigits.simps digitChar_def)
  with coverUrlFromId_template [of 12345] show ?thesis by simp
qed


section \<open>Rejected queries\<close>

text \<open>
  Claim C3. When the query parameter is missing, or its trimmed value has fewer than
  two code units, \<^verbatim>\<open>GET\<close> answers with status 400 and an error body with a message, and
  issues no request: neither the catalog search nor the subject lookup.
\<close>

theorem GET_short_query:
  assumes "case param of None \<Rightarrow> True | Some s \<Rightarrow> length (trim s) < 2"
  shows "status (fst (GET w param)) = 400 \<and>
         (\<exists>m. m \<noteq> [] \<and> body (fst (GET w param)) = ErrorJson m) \<and>
         snd (GET w param) = []"
  using assms
  by (auto simp: GET_def createErrorResponse_def split: option.splits)

theorem GET_short_query_witness:
  "length (trim ''  C  '') < 2 \<and>
   status (fst (GET repeatedWorkCatalog (Some ''  C  ''))) = 400 \<and>
   snd (GET repeatedWorkCatalog (Some ''  C  '')) = []"
proof -
  have h: "length (trim ''  C  '') < 2"
    by (simp add: trim_def isWhiteSpace_def)
  then have "case Some ''  C  '' of None \<Rightarrow> True | Some s \<Rightarrow> length (trim s) < 2"
    by simp
  from GET_short_query [OF this, of repeatedWorkCatalog] h show ?thesis
    by blast
qed


section \<open>No qualifying search hit\<close>

text \<open>
  Claim C4. When the search succeeds and no hit has both a key and a title (a hit
  qualifies when both are present and non-empty; \<^verbatim>\<open>docs\<close> may also be missing), \<^verbatim>\<open>GET\<close>
  answers with status 200, a null seed, no recommendations and a non-empty message,
  after the one search request.
\<close>

theorem GET_no_matches:
  assumes "param = Some s" and "2 \<le> length (trim s)"
    and "fetchSearch w (trim s) = Response True (Json searchData)"
    and "\<forall>d \<in> set (case docs searchData of None \<Rightarrow> [] | Some l \<Rightarrow> l). \<not> qualifies d"
  shows "\<exists>m. m \<noteq> [] \<and>
           GET w param =
             (\<lparr> status = 200, body = ResultJson None [] (Some m) \<rparr>,
              [SearchRequest (trim s)])"
proof -
  have "(case docs searchData of None \<Rightarrow> [] | Some l \<Rightarrow> filter qualifies l) = []"
    using assms(4) by (auto split: option.splits simp: filter_empty_conv)
  then have "assemble w searchData =
      (NextResponse_json
         (ResultJson None [] (Some ''We could not find any matches for that book.'')), [])"
    by (simp add: assemble_def)
  moreover have "trim s \<noteq> []"
    using assms(2) by auto
  ultimately show ?thesis
    using assms(1-3) by (simp add: GET_def NextResponse_json_def)
qed

theorem GET_no_matches_witness:
  "\<exists>m. m \<noteq> [] \<and>
     GET noQualifyingHitCatalog (Some '' Circe'') =
       (\<lparr> status = 200, body = ResultJson None [] (Some m) \<rparr>, [SearchRequest ''Circe''])"
proof -
  let ?data = "\<lparr> docs = Some [circe \<lparr> SearchDoc.title := None \<rparr>,
        circe \<lparr> SearchDoc.key := None \<rparr>,
        circe \<lparr> SearchDoc.key := Some [] \<rparr>] \<rparr>"
  have t: "trim '' Circe'' = ''Circe''"
    by (simp add: trim_def isWhiteSpace_def)
  have f: "fetchSearch noQualifyingHitCatalog (trim '' Circe'') = Response True (Json ?data)"
    by (simp add: t noQualifyingHitCatalog_def exampleCatalog_def)
  have q: "\<forall>d \<in> set (case docs ?data of None \<Rightarrow> [] | Some l \<Rightarrow> l). \<not> qualifies d"
    by (simp add: qualifies_def truthyString_def)
  from GET_no_matches [OF refl _ f q] t show ?thesis
    by simp
qed


section \<open>The two loops\<close>

text \<open>
  What each \<^verbatim>\<open>forEach\<close> leaves in \<^verbatim>\<open>recommendations\<close>, as long as the list it starts from
  is within the cap: the list it started from, followed by the mapped elements, cut at
  \<^const>\<open>MAX_RESULTS\<close>. The fallback loop maps the hits that \<^const>\<open>unseenHits\<close> keeps.
\<close>

lemma fold_pushSubjectWork:
  "length recs \<le> MAX_RESULTS \<Longrightarrow>
     snd (fold pushSubjectWork l (used, recs)) =
       take MAX_RESULTS (recs @ map mapSubjectWorkToBook l)"
proof (induction l arbitrary: used recs)
  case Nil
  then show ?case by simp
next
  case (Cons a l)
  show ?case
  proof (cases "length recs \<ge> MAX_RESULTS")
    case True
    with Cons.prems have "length recs = MAX_RESULTS" by simp
    with Cons.IH [of recs used] show ?thesis
      by (simp add: pushSubjectWork_def)
  next
    case False
    then have "length (recs @ [mapSubjectWorkToBook a]) \<le> MAX_RESULTS" by simp
    from Cons.IH [OF this] False show ?thesis
      by (simp add: pushSubjectWork_def)
  qed
qed

lemma fold_pushSearchDoc:
  "length recs \<le> MAX_RESULTS \<Longrightarrow>
     snd (fold pushSearchDoc ds (used, recs)) =
       take MAX_RESULTS (recs @ map mapDocToBook (unseenHits used ds))"
proof (induction ds arbitrary: used recs)
  case Nil
  then show ?case by simp
next
  case (Cons d ds)
  consider (full) "length recs \<ge> MAX_RESULTS"
    | (used) "length recs < MAX_RESULTS" "SearchDoc.key d \<in> used"
    | (push) "length recs < MAX_RESULTS" "SearchDoc.key d \<notin> used"
    by linarith
  then show ?case
  proof cases
    case full
    with Cons.prems have "length recs = MAX_RESULTS" by simp
    with Cons.IH [of recs used] show ?thesis
      by (simp add: pushSearchDoc_def)
  next
    case used
    with Cons.IH [of recs used] Cons.prems show ?thesis
      by (simp add: pushSearchDoc_def)
  next
    case push
    then have "length (recs @ [mapDocToBook d]) \<le> MAX_RESULTS" by simp
    from Cons.IH [OF this] push show ?thesis
      by (simp add: pushSearchDoc_def)
  qed
qed

lemma unseenHits_subseq: "subseq (unseenHits used ds) ds"
  by (induction ds arbitrary: used) auto

lemma unseenHits_keys: "SearchDoc.key ` set (unseenHits used ds) = SearchDoc.key ` set ds - used"
  by (induction ds arbitrary: used) auto

lemma unseenHits_distinct: "distinct (map SearchDoc.key (unseenHits used ds))"
  by (induction ds arbitrary: used) (auto simp: unseenHits_keys)

lemma addSubjectWorks_snd:
  "length (snd st) \<le> MAX_RESULTS \<Longrightarrow>
     snd (addSubjectWorks ws st) =
       take MAX_RESULTS
         (snd st @ map mapSubjectWorkToBook
            (filter (\<lambda>work. truthyString (SubjectWork.key work) \<and> SubjectWork.key work \<notin> fst st)
               (case ws of None \<Rightarrow> [] | Some l \<Rightarrow> l)))"
  by (cases st; cases ws) (simp_all add: addSubjectWorks_def fold_pushSubjectWork)

lemma addSearchDocs_snd:
  "length (snd st) \<le> MAX_RESULTS \<Longrightarrow>
     snd (addSearchDocs rest st) =
       take MAX_RESULTS (snd st @ map mapDocToBook (unseenHits (fst st) rest))"
  by (cases st) (auto simp: addSearchDocs_def fold_pushSearchDoc)

lemma lookupSubject_length:
  "lookupSubject w seedDoc st = (Some st', reqs) \<Longrightarrow> length (snd st) \<le> MAX_RESULTS \<Longrightarrow>
     length (snd st') \<le> MAX_RESULTS"
  by (auto simp: lookupSubject_def Let_def addSubjectWorks_snd
           split: option.splits if_splits fetched.splits json_body.splits)

text \<open>Every result body comes out of the final \<^verbatim>\<open>slice\<close>.\<close>

lemma assemble_length:
  "body (fst (assemble w searchData)) = ResultJson seed recs msg \<Longrightarrow> length recs \<le> MAX_RESULTS"
  by (auto simp: assemble_def Let_def NextResponse_json_def unexpectedError_def
        createErrorResponse_def split: list.splits option.splits prod.splits)

lemma GET_length:
  assumes "body (fst (GET w param)) = ResultJson seed recs msg"
  shows "length recs \<le> MAX_RESULTS"
proof -
  have "\<exists>searchData. body (fst (assemble w searchData)) = ResultJson seed recs msg"
    using assms
    by (auto simp: GET_def unexpectedError_def createErrorResponse_def
          split: option.splits if_splits fetched.splits json_body.splits prod.splits)
       (metis fst_conv)
  then show ?thesis by (auto dest: assemble_length)
qed

text \<open>
  Claim C2. The cap is 10. Once the list has reached the cap neither callback appends;
  started within the cap, the subject loop and the fallback loop both end within the
  cap; and the recommendations of every result that \<^verbatim>\<open>GET\<close> returns are at most 10.
\<close>

theorem recommendations_at_most_MAX_RESULTS:
  "MAX_RESULTS = 10 \<and>
   (MAX_RESULTS \<le> length (snd st) \<longrightarrow>
      pushSubjectWork work st = st \<and> pushSearchDoc doc st = st) \<and>
   (length (snd st) \<le> MAX_RESULTS \<longrightarrow>
      length (snd (addSubjectWorks ws st)) \<le> MAX_RESULTS \<and>
      length (snd (addSearchDocs rest st)) \<le> MAX_RESULTS) \<and>
   (body (fst (GET w param)) = ResultJson seed recs msg \<longrightarrow> length recs \<le> MAX_RESULTS)"
proof (intro conjI impI)
  show "MAX_RESULTS = 10"
    by (simp add: MAX_RESULTS_def)
next
  assume "MAX_RESULTS \<le> length (snd st)"
  then show "pushSubjectWork work st = st" and "pushSearchDoc doc st = st"
    by (cases st; simp add: pushSubjectWork_def pushSearchDoc_def)+
next
  assume "length (snd st) \<le> MAX_RESULTS"
  then show "length (snd (addSubjectWorks ws st)) \<le> MAX_RESULTS"
    and "length (snd (addSearchDocs rest st)) \<le> MAX_RESULTS"
    by (simp_all add: addSubjectWorks_snd addSearchDocs_snd)
next
  assume "body (fst (GET w param)) = ResultJson seed recs msg"
  then show "length recs \<le> MAX_RESULTS"
    by (rule GET_length)
qed

theorem recommendations_at_most_MAX_RESULTS_witness:
  "length (snd fullAssembly) = MAX_RESULTS \<and>
   pushSubjectWork (exampleWork ''/works/OL5W'' None) fullAssembly = fullAssembly \<and>
   pushSearchDoc circe fullAssembly = fullAssembly \<and>
   body (fst (GET twelveWorksCatalog (Some ''Circe''))) =
     ResultJson (Some (exampleBook ''/works/OL123W'' (Some ''Circe'') (Some [''Mythology''])))
       (map (\<lambda>k. exampleBook (''/works/OL'' @ k) (Some k) None)
          [''a'', ''b'', ''c'', ''d'', ''e'', ''f'', ''g'', ''h'', ''i'', ''j''])
       None \<and>
   length (map (\<lambda>k. exampleBook (''/works/OL'' @ k) (Some k) None)
          [''a'', ''b'', ''c'', ''d'', ''e'', ''f'', ''g'', ''h'', ''i'', ''j'']) \<le> MAX_RESULTS"
proof -
  have l: "length (snd fullAssembly) = MAX_RESULTS"
    by (simp add: fullAssembly_def MAX_RESULTS_def)
  have g: "body (fst (GET twelveWorksCatalog (Some ''Circe''))) =
     ResultJson (Some (exampleBook ''/works/OL123W'' (Some ''Circe'') (Some [''Mythology''])))
       (map (\<lambda>k. exampleBook (''/works/OL'' @ k) (Some k) None)
          [''a'', ''b'', ''c'', ''d'', ''e'', ''f'', ''g'', ''h'', ''i'', ''j''])
       None"
    by code_simp
  from recommendations_at_most_MAX_RESULTS
    [of fullAssembly "exampleWork ''/works/OL5W'' None" circe None Nil
        twelveWorksCatalog "Some ''Circe''", THEN conjunct2, THEN conjunct1] l
  have p: "pushSubjectWork (exampleWork ''/works/OL5W'' None) fullAssembly = fullAssembly \<and>
           pushSearchDoc circe fullAssembly = fullAssembly"
    by simp
  from recommendations_at_most_MAX_RESULTS
    [of fullAssembly "exampleWork ''/works/OL5W'' None" circe None Nil
        twelveWorksCatalog "Some ''Circe''", THEN conjunct2, THEN conjunct2, THEN conjunct2,
     rule_format, OF g]
  have "length (map (\<lambda>k. exampleBook (''/works/OL'' @ k) (Some k) None)
          [''a'', ''b'', ''c'', ''d'', ''e'', ''f'', ''g'', ''h'', ''i'', ''j'']) \<le> MAX_RESULTS" .
  with l p g show ?thesis by blast
qed


section \<open>The seed is never recommended\<close>

text \<open>
  Both loops keep the seed's key out: the subject works are filtered against a set that
  holds it, and the fallback loop skips every hit whose key is in the set.
\<close>

lemma fold_pushSubjectWork_used: "used \<subseteq> fst (fold pushSubjectWork l (used, recs))"
proof (induction l arbitrary: used recs)
  case Nil
  then show ?case by simp
next
  case (Cons a l)
  show ?case
  proof (cases "length recs \<ge> MAX_RESULTS")
    case True
    with Cons.IH [of used recs] show ?thesis
      by (simp add: pushSubjectWork_def)
  next
    case False
    with Cons.IH [of "insert (SubjectWork.key a) used" "recs @ [mapSubjectWorkToBook a]"]
    show ?thesis
      by (auto simp: pushSubjectWork_def)
  qed
qed

lemma addSubjectWorks_used: "fst st \<subseteq> fst (addSubjectWorks ws st)"
  by (cases st; cases ws) (simp_all add: addSubjectWorks_def fold_pushSubjectWork_used)

lemma key_mapSubjectWorkToBook: "Book.key (mapSubjectWorkToBook work) = SubjectWork.key work"
  by (simp add: mapSubjectWorkToBook_def)

lemma key_mapDocToBook: "Book.key (mapDocToBook doc) = SearchDoc.key doc"
  by (simp add: mapDocToBook_def)

lemma addSubjectWorks_keys:
  assumes "length (snd st) \<le> MAX_RESULTS" and "k \<in> fst st" and "k \<notin> Book.key ` set (snd st)"
  shows "k \<notin> Book.key ` set (snd (addSubjectWorks ws st))"
proof
  assume "k \<in> Book.key ` set (snd (addSubjectWorks ws st))"
  then obtain b where b: "b \<in> set (snd (addSubjectWorks ws st))" and k: "k = Book.key b"
    by blast
  from b have "b \<in> set (snd st) \<or>
      b \<in> mapSubjectWorkToBook `
        set (filter (\<lambda>work. truthyString (SubjectWork.key work) \<and> SubjectWork.key work \<notin> fst st)
               (case ws of None \<Rightarrow> [] | Some l \<Rightarrow> l))"
    unfolding addSubjectWorks_snd [OF assms(1)] by (auto dest!: in_set_takeD)
  with assms(2,3) k show False
    by (auto simp: key_mapSubjectWorkToBook)
qed

lemma addSearchDocs_keys:
  assumes "length (snd st) \<le> MAX_RESULTS" and "k \<in> fst st" and "k \<notin> Book.key ` set (snd st)"
  shows "k \<notin> Book.key ` set (snd (addSearchDocs rest st))"
proof
  assume "k \<in> Book.key ` set (snd (addSearchDocs rest st))"
  then obtain b where b: "b \<in> set (snd (addSearchDocs rest st))" and k: "k = Book.key b"
    by blast
  from b have "b \<in> set (snd st) \<or> b \<in> mapDocToBook ` set (unseenHits (fst st) rest)"
    unfolding addSearchDocs_snd [OF assms(1)] by (auto dest!: in_set_takeD)
  moreover have "k \<notin> SearchDoc.key ` set (unseenHits (fst st) rest)"
    using assms(2) by (simp add: unseenHits_keys)
  ultimately show False
    using assms(3) k by (auto simp: key_mapDocToBook)
qed

lemma lookupSubject_keys:
  assumes "lookupSubject w seedDoc st = (Some st', reqs)"
    and "length (snd st) \<le> MAX_RESULTS" and "k \<in> fst st" and "k \<notin> Book.key ` set (snd st)"
  shows "k \<in> fst st' \<and> k \<notin> Book.key ` set (snd st')"
proof -
  from assms(1) have "st' = st \<or> (\<exists>ws. st' = addSubjectWorks ws st)"
    by (auto simp: lookupSubject_def Let_def
           split: option.splits if_splits fetched.splits json_body.splits)
  then show ?thesis
    using addSubjectWorks_keys [OF assms(2-4)] addSubjectWorks_used [of st] assms(3,4)
    by auto
qed

lemma assemble_seed_not_recommended:
  assumes "body (fst (assemble w searchData)) = ResultJson (Some seed) recs msg"
  shows "Book.key seed \<notin> Book.key ` set recs"
proof -
  from assms obtain seedDoc rest st reqs where
    l: "lookupSubject w seedDoc ({SearchDoc.key seedDoc}, []) = (Some st, reqs)"
    and s: "seed = mapDocToBook seedDoc"
    and r: "recs = take MAX_RESULTS (snd (addSearchDocs rest st))"
    by (auto simp: assemble_def Let_def NextResponse_json_def unexpectedError_def
          createErrorResponse_def key_mapDocToBook
          split: list.splits option.splits prod.splits)
  from lookupSubject_keys [OF l, of "SearchDoc.key seedDoc"]
  have "SearchDoc.key seedDoc \<in> fst st"
    and "SearchDoc.key seedDoc \<notin> Book.key ` set (snd st)"
    by simp_all
  moreover have "length (snd st) \<le> MAX_RESULTS"
    using lookupSubject_length [OF l] by simp
  ultimately have "SearchDoc.key seedDoc \<notin> Book.key ` set (snd (addSearchDocs rest st))"
    by (intro addSearchDocs_keys)
  then show ?thesis
    unfolding s r by (auto simp: key_mapDocToBook dest!: in_set_takeD)
qed

lemma GET_seed_not_recommended:
  assumes "body (fst (GET w param)) = ResultJson (Some seed) recs msg"
  shows "Book.key seed \<notin> Book.key ` set recs"
proof -
  have "\<exists>searchData. body (fst (assemble w searchData)) = ResultJson (Some seed) recs msg"
    using assms
    by (auto simp: GET_def unexpectedError_def createErrorResponse_def
          split: option.splits if_splits fetched.splits json_body.splits prod.splits)
       (metis fst_conv)
  then show ?thesis
    by (auto dest: assemble_seed_not_recommended)
qed


section \<open>Subject works\<close>

text \<open>
  Claim C9. From a subject response the route takes every work whose key is present,
  non-empty and not among the keys used before the loop, up to the cap: the title is
  not looked at, and a work without a title is mapped to a book without a title. A
  search hit without a title never qualifies. With a subject response that holds a
  keyed work without a title, the recommendations hold a book whose title is absent.
\<close>

theorem subject_work_title_not_checked:
  "snd (addSubjectWorks (Some ws) (used, [])) =
     take MAX_RESULTS
       (map mapSubjectWorkToBook
          (filter (\<lambda>work. truthyString (SubjectWork.key work) \<and> SubjectWork.key work \<notin> used)
             ws)) \<and>
   Book.title (mapSubjectWorkToBook (work \<lparr> SubjectWork.title := None \<rparr>)) = None \<and>
   \<not> qualifies (doc \<lparr> SearchDoc.title := None \<rparr>) \<and>
   GET untitledWorkCatalog (Some ''Circe'') =
     (\<lparr> status = 200,
        body = ResultJson
                 (Some (exampleBook ''/works/OL123W'' (Some ''Circe'') (Some [''Mythology''])))
                 [exampleBook ''/works/OL4W'' None None] None \<rparr>,
      [SearchRequest ''Circe'',
       SubjectRequest ''https://openlibrary.org/subjects/mythology.json?limit=30'']) \<and>
   Book.title (exampleBook ''/works/OL4W'' None None) = None"
proof (intro conjI)
  show "snd (addSubjectWorks (Some ws) (used, [])) =
     take MAX_RESULTS
       (map mapSubjectWorkToBook
          (filter (\<lambda>work. truthyString (SubjectWork.key work) \<and> SubjectWork.key work \<notin> used)
             ws))"
    by (simp add: addSubjectWorks_snd)
  show "Book.title (mapSubjectWorkToBook (work \<lparr> SubjectWork.title := None \<rparr>)) = None"
    by (simp add: mapSubjectWorkToBook_def)
  show "\<not> qualifies (doc \<lparr> SearchDoc.title := None \<rparr>)"
    by (simp add: qualifies_def truthyString_def)
  show "GET untitledWorkCatalog (Some ''Circe'') =
     (\<lparr> status = 200,
        body = ResultJson
                 (Some (exampleBook ''/works/OL123W'' (Some ''Circe'') (Some [''Mythology''])))
                 [exampleBook ''/works/OL4W'' None None] None \<rparr>,
      [SearchRequest ''Circe'',
       SubjectRequest ''https://openlibrary.org/subjects/mythology.json?limit=30''])"
    by code_simp
  show "Book.title (exampleBook ''/works/OL4W'' None None) = None"
    by (simp add: exampleBook_def)
qed

text \<open>
  Claim C1 says that no two recommendations share a key, also when a response repeats
  a key. The subject works are filtered against \<^verbatim>\<open>uniqueKeys\<close> before the first of them
  is added, so a work that the subject response lists twice passes the filter twice:
  here the route recommends \<^verbatim>\<open>/works/OL1W\<close> twice.
\<close>

theorem repeated_subject_work_recommended_twice:
  "GET repeatedWorkCatalog (Some ''Circe'') =
     (\<lparr> status = 200,
        body = ResultJson
                 (Some (exampleBook ''/works/OL123W'' (Some ''Circe'') (Some [''Mythology''])))
                 [exampleBook ''/works/OL1W'' (Some ''Galatea'') None,
                  exampleBook ''/works/OL1W'' (Some ''Galatea'') None] None \<rparr>,
      [SearchRequest ''Circe'',
       SubjectRequest ''https://openlibrary.org/subjects/mythology.json?limit=30'']) \<and>
   \<not> distinct (map Book.key [exampleBook ''/works/OL1W'' (Some ''Galatea'') None,
                               exampleBook ''/works/OL1W'' (Some ''Galatea'') None])"
proof
  show "GET repeatedWorkCatalog (Some ''Circe'') =
     (\<lparr> status = 200,
        body = ResultJson
                 (Some (exampleBook ''/works/OL123W'' (Some ''Circe'') (Some [''Mythology''])))
                 [exampleBook ''/works/OL1W'' (Some ''Galatea'') None,
                  exampleBook ''/works/OL1W'' (Some ''Galatea'') None] None \<rparr>,
      [SearchRequest ''Circe'',
       SubjectRequest ''https://openlibrary.org/subjects/mythology.json?limit=30''])"
    by code_simp
  show "\<not> distinct (map Book.key [exampleBook ''/works/OL1W'' (Some ''Galatea'') None,
                               exampleBook ''/works/OL1W'' (Some ''Galatea'') None])"
    by simp
qed


section \<open>Without subject works\<close>

lemma lookupSubject_skipped:
  assumes "\<not> truthyString (primarySubject seedDoc) \<or>
           (\<exists>p b. primarySubject seedDoc = Some p \<and>
                  fetchSubject w (subjectUrl (subjectSlug p)) = Response False b)"
  shows "fst (lookupSubject w seedDoc st) = Some st"
  using assms
  by (auto simp: lookupSubject_def Let_def truthyString_def split: option.splits)

text \<open>
  Claim C5. When the search succeeds with a seed, and either the seed has no primary
  subject (none at all, or an empty string) or the subject lookup answers with a
  non-success status, \<^verbatim>\<open>GET\<close> answers with status 200 and the seed, and the
  recommendations are the first \<^const>\<open>MAX_RESULTS\<close> of the remaining hits whose key is
  unused, mapped to books: a subsequence of the remaining hits in their order, without
  the seed's key and without a repeated key.
\<close>

theorem GET_without_subject_works:
  assumes "param = Some s" and "2 \<le> length (trim s)"
    and "fetchSearch w (trim s) = Response True (Json searchData)"
    and "(case docs searchData of None \<Rightarrow> [] | Some l \<Rightarrow> filter qualifies l) = seedDoc # rest"
    and "\<not> truthyString (primarySubject seedDoc) \<or>
         (\<exists>p b. primarySubject seedDoc = Some p \<and>
                fetchSubject w (subjectUrl (subjectSlug p)) = Response False b)"
  shows "\<exists>recs.
           fst (GET w param) =
             \<lparr> status = 200, body = ResultJson (Some (mapDocToBook seedDoc)) recs None \<rparr> \<and>
           recs = map mapDocToBook (take MAX_RESULTS (unseenHits {SearchDoc.key seedDoc} rest)) \<and>
           subseq recs (map mapDocToBook rest) \<and>
           SearchDoc.key seedDoc \<notin> set (map Book.key recs) \<and>
           distinct (map Book.key recs)"
proof -
  let ?st = "({SearchDoc.key seedDoc}, []) :: assembly"
  let ?hits = "take MAX_RESULTS (unseenHits {SearchDoc.key seedDoc} rest)"
  obtain reqs where l: "lookupSubject w seedDoc ?st = (Some ?st, reqs)"
    using lookupSubject_skipped [OF assms(5), of ?st] by (cases "lookupSubject w seedDoc ?st") simp
  have "snd (addSearchDocs rest ?st) = take MAX_RESULTS (map mapDocToBook (unseenHits {SearchDoc.key seedDoc} rest))"
    by (simp add: addSearchDocs_snd)
  then have a: "fst (assemble w searchData) =
      \<lparr> status = 200, body = ResultJson (Some (mapDocToBook seedDoc)) (map mapDocToBook ?hits) None \<rparr>"
    using assms(4) l
    by (simp add: assemble_def mapDocToBook_def [of seedDoc, THEN arg_cong [of _ _ Book.key]] NextResponse_json_def take_map)
  have "trim s \<noteq> []" using assms(2) by auto
  with a assms(1-3) have g: "fst (GET w param) =
      \<lparr> status = 200, body = ResultJson (Some (mapDocToBook seedDoc)) (map mapDocToBook ?hits) None \<rparr>"
    by (cases "assemble w searchData") (simp add: GET_def)
  have "subseq ?hits rest"
    by (meson subseq_order.trans unseenHits_subseq sublist_take sublist_imp_subseq)
  then have s: "subseq (map mapDocToBook ?hits) (map mapDocToBook rest)"
    by (rule subseq_map)
  have "SearchDoc.key seedDoc \<notin> SearchDoc.key ` set (unseenHits {SearchDoc.key seedDoc} rest)"
    by (simp add: unseenHits_keys)
  then have "SearchDoc.key seedDoc \<notin> SearchDoc.key ` set ?hits"
    by (auto dest: in_set_takeD)
  then have k: "SearchDoc.key seedDoc \<notin> set (map Book.key (map mapDocToBook ?hits))"
    by (auto simp: mapDocToBook_def)
  have "distinct (take MAX_RESULTS (map SearchDoc.key (unseenHits {SearchDoc.key seedDoc} rest)))"
    by (rule distinct_take) (rule unseenHits_distinct)
  then have d: "distinct (map Book.key (map mapDocToBook ?hits))"
    by (simp add: take_map comp_def key_mapDocToBook)
  from g s k d show ?thesis by blast
qed

theorem GET_without_subject_works_witness:
  "fst (GET failingSubjectCatalog (Some ''Circe'')) =
     \<lparr> status = 200,
       body = ResultJson
                (Some (exampleBook ''/works/OL123W'' (Some ''Circe'') (Some [''Mythology''])))
                [exampleBook ''/works/OL2W'' (Some ''Circe. A novel'') (Some []),
                 exampleBook ''/works/OL3W'' (Some ''The Song of Achilles'') (Some [])]
                None \<rparr>"
proof -
  let ?rest = "[exampleDoc ''/works/OL2W'' ''Circe. A novel'' [],
        exampleDoc ''/works/OL123W'' ''Circe (reprint)'' [],
        exampleDoc ''/works/OL2W'' ''Circe. A novel (reprint)'' [],
        exampleDoc ''/works/OL3W'' ''The Song of Achilles'' []]"
  let ?data = "\<lparr> docs = Some (circe # ?rest) \<rparr>"
  have t: "trim ''Circe'' = ''Circe''"
    by (simp add: trim_def isWhiteSpace_def)
  have f: "fetchSearch failingSubjectCatalog (trim ''Circe'') = Response True (Json ?data)"
    by (simp add: t failingSubjectCatalog_def exampleCatalog_def)
  have q: "(case docs ?data of None \<Rightarrow> [] | Some l \<Rightarrow> filter qualifies l) = circe # ?rest"
    by (simp add: qualifies_def truthyString_def circe_def exampleDoc_def)
  have p: "primarySubject circe = Some ''Mythology''"
    by (simp add: primarySubject_def circe_def exampleDoc_def)
  have u: "subjectUrl (subjectSlug ''Mythology'') =
             ''https://openlibrary.org/subjects/mythology.json?limit=30''"
    by code_simp
  have s: "\<not> truthyString (primarySubject circe) \<or>
         (\<exists>p b. primarySubject circe = Some p \<and>
                fetchSubject failingSubjectCatalog (subjectUrl (subjectSlug p)) = Response False b)"
    by (simp add: p u failingSubjectCatalog_def exampleCatalog_def)
  have e: "map mapDocToBook (take MAX_RESULTS (unseenHits {SearchDoc.key circe} ?rest)) =
      [exampleBook ''/works/OL2W'' (Some ''Circe. A novel'') (Some []),
       exampleBook ''/works/OL3W'' (Some ''The Song of Achilles'') (Some [])]"
    by code_simp
  have m: "mapDocToBook circe = exampleBook ''/works/OL123W'' (Some ''Circe'') (Some [''Mythology''])"
    by code_simp
  have t2: "2 \<le> length (trim ''Circe'')"
    by (simp add: t)
  from GET_without_subject_works [OF refl t2 f q s]
  obtain recs where g: "fst (GET failingSubjectCatalog (Some ''Circe'')) =
        \<lparr> status = 200, body = ResultJson (Some (mapDocToBook circe)) recs None \<rparr>"
    and r: "recs = map mapDocToBook (take MAX_RESULTS (unseenHits {SearchDoc.key circe} ?rest))"
    by blast
  show ?thesis
    by (simp only: g r e m)
qed


section \<open>The subject slug\<close>

subsection \<open>The route's steps and the specification's\<close>

lemma replaceClass_filter: "replaceClass cls [] s = filter (\<lambda>c. \<not> cls c) s"
  by (induction s) auto

lemma runsToUnderscore_inRun:
  "runsToUnderscore ws u True s = runsToUnderscore ws u False (dropWhile ws s)"
  by (induction s) auto

lemma replaceClassPlus_runs:
  "replaceClassPlus ws [u] s = runsToUnderscore ws u False s"
  by (induction ws "[u]" s rule: replaceClassPlus.induct)
     (auto simp: runsToUnderscore_inRun)

lemma percentEncodeOctets_append:
  "percentEncodeOctets (a @ b) = percentEncodeOctets a @ percentEncodeOctets b"
  by (simp add: percentEncodeOctets_def)

lemma high_octet_escaped: "128 \<le> b \<Longrightarrow> \<not> unreservedOctet b"
  by (simp add: unreservedOctet_def)

lemma utf8_high: "128 \<le> cp \<Longrightarrow> b \<in> set (utf8 cp) \<Longrightarrow> 128 \<le> b"
  by (auto simp: utf8_def split: if_splits)

lemma percentEncodeOctets_all_escaped:
  "(\<And>b. b \<in> set bs \<Longrightarrow> \<not> unreservedOctet b) \<Longrightarrow>
     percentEncodeOctets bs = concat (map percentByte bs)"
  unfolding percentEncodeOctets_def by (induction bs) simp_all

lemma percentEncodeOctets_escaped:
  assumes "\<not> unreservedOctet cp"
  shows "percentEncodeOctets (utf8 cp) = percentOctets cp"
  unfolding percentOctets_def
proof (rule percentEncodeOctets_all_escaped)
  fix b
  assume b: "b \<in> set (utf8 cp)"
  show "\<not> unreservedOctet b"
  proof (cases "cp < 128")
    case True
    with b assms show ?thesis by (simp add: utf8_def)
  next
    case False
    with b have "128 \<le> b" by (intro utf8_high [of cp b]) simp_all
    then show ?thesis by (rule high_octet_escaped)
  qed
qed

lemma percentEncodeOctets_pair:
  "percentEncodeOctets (utf8 (pairCodePoint c d)) = percentOctets (pairCodePoint c d)"
  by (rule percentEncodeOctets_escaped, rule high_octet_escaped) (simp add: pairCodePoint_def)

lemma percentEncodeOctets_kept:
  assumes "unreservedOctet cp"
  shows "percentEncodeOctets (utf8 cp) = [char_of cp]"
proof -
  have "cp < 128"
    using assms high_octet_escaped [of cp] by (cases "cp < 128") simp_all
  with assms show ?thesis
    by (simp add: percentEncodeOctets_def utf8_def)
qed

lemma uriUnescapedUnit_octet: "uriUnescapedUnit c = unreservedOctet (unat c)"
  by (simp add: uriUnescapedUnit_def unreservedOctet_def Let_def)

lemma unreserved_not_surrogate:
  "uriUnescapedUnit c \<Longrightarrow> \<not> isLeadSurrogate c \<and> \<not> isTrailSurrogate c"
  by (auto simp: uriUnescapedUnit_def isLeadSurrogate_def isTrailSurrogate_def Let_def)

lemma encode_kept:
  assumes "uriUnescapedUnit c" and "encodeURIComponentUnits cs = specPercentEncode cs"
  shows "encodeURIComponentUnits (c # cs) = specPercentEncode (c # cs)"
proof -
  from assms(1) have o: "unreservedOctet (unat c)"
    by (simp add: uriUnescapedUnit_octet)
  from unreserved_not_surrogate [OF assms(1)]
  have "codePoints (c # cs) = map_option ((#) (unat c)) (codePoints cs)"
    by simp
  then have "specPercentEncode (c # cs) = map_option ((#) (char_of (unat c))) (specPercentEncode cs)"
    by (cases "codePoints cs")
       (simp_all add: specPercentEncode_def percentEncodeOctets_append percentEncodeOctets_kept [OF o])
  with assms show ?thesis
    by simp
qed

lemma encode_pair:
  assumes "\<not> uriUnescapedUnit c" and "isLeadSurrogate c" and "isTrailSurrogate d"
    and "encodeURIComponentUnits ds = specPercentEncode ds"
  shows "encodeURIComponentUnits (c # d # ds) = specPercentEncode (c # d # ds)"
proof -
  from assms(2,3)
  have "codePoints (c # d # ds) = map_option ((#) (pairCodePoint c d)) (codePoints ds)"
    by simp
  then have "specPercentEncode (c # d # ds) =
      map_option ((@) (percentOctets (pairCodePoint c d))) (specPercentEncode ds)"
    by (cases "codePoints ds")
       (simp_all add: specPercentEncode_def percentEncodeOctets_append percentEncodeOctets_pair)
  with assms show ?thesis
    by simp
qed

lemma encode_plain:
  assumes "\<not> uriUnescapedUnit c" and "\<not> isLeadSurrogate c" and "\<not> isTrailSurrogate c"
    and "encodeURIComponentUnits cs = specPercentEncode cs"
  shows "encodeURIComponentUnits (c # cs) = specPercentEncode (c # cs)"
proof -
  from assms(1) have o: "\<not> unreservedOctet (unat c)"
    by (simp add: uriUnescapedUnit_octet)
  from assms(2,3)
  have "codePoints (c # cs) = map_option ((#) (unat c)) (codePoints cs)"
    by simp
  then have "specPercentEncode (c # cs) =
      map_option ((@) (percentOctets (unat c))) (specPercentEncode cs)"
    by (cases "codePoints cs")
       (simp_all add: specPercentEncode_def percentEncodeOctets_append
          percentEncodeOctets_escaped [OF o])
  with assms show ?thesis
    by simp
qed

lemma encodeURIComponentUnits_spec: "encodeURIComponentUnits s = specPercentEncode s"
proof (induction s rule: encodeURIComponentUnits.induct)
  case 1
  show ?case by (simp add: specPercentEncode_def percentEncodeOctets_def)
next
  case (2 c cs)
  show ?case
  proof (cases "uriUnescapedUnit c")
    case True
    with 2(1) show ?thesis by (intro encode_kept) simp_all
  next
    case escaped: False
    show ?thesis
    proof (cases "isLeadSurrogate c")
      case lead: True
      show ?thesis
      proof (cases cs)
        case Nil
        with escaped lead show ?thesis by (simp add: specPercentEncode_def)
      next
        case (Cons d ds)
        show ?thesis
        proof (cases "isTrailSurrogate d")
          case True
          from 2(2) [OF escaped lead Cons True] escaped lead True show ?thesis
            unfolding Cons by (intro encode_pair)
        next
          case False
          with escaped lead Cons show ?thesis by (simp add: specPercentEncode_def)
        qed
      qed
    next
      case notlead: False
      show ?thesis
      proof (cases "isTrailSurrogate c")
        case True
        with escaped notlead show ?thesis by (simp add: specPercentEncode_def)
      next
        case False
        from 2(3) [OF escaped notlead False] escaped notlead False show ?thesis
          by (intro encode_plain)
      qed
    qed
  qed
qed

lemma subjectSlugUnits_spec:
  "encodeURIComponentUnits (subjectSlugUnits tbl s) = specSlugUnits tbl s"
  by (simp add: encodeURIComponentUnits_spec subjectSlugUnits_def specSlugUnits_def
        replaceClass_filter replaceClassPlus_runs conj_commute)

subsection \<open>The strings of code units below 256\<close>

lemma unat_of_char: "unat (of_char c :: unit16) = of_char c"
proof -
  have "(of_char c :: unit16) = of_nat (of_char c)"
    by (simp add: of_nat_of_char)
  then have "unat (of_char c :: unit16) = of_char c mod 2 ^ 16"
    by (simp only: unat_of_nat) simp
  moreover have "(of_char c :: nat) < 2 ^ 16"
    by (rule less_trans [OF nat_of_char_less_256]) simp
  ultimately show ?thesis
    by simp
qed

lemma char_eq_code: "c = d \<longleftrightarrow> (of_char c :: nat) = of_char d"
  by (simp add: of_char_eq_iff)

lemma whiteSpace_below_256:
  "n < 256 \<Longrightarrow>
     (n \<in> set [0x0009, 0x000A, 0x000B, 0x000C, 0x000D, 0x0020, 0x00A0, 0x1680,
                0x2000, 0x2001, 0x2002, 0x2003, 0x2004, 0x2005, 0x2006, 0x2007,
                0x2008, 0x2009, 0x200A, 0x2028, 0x2029, 0x202F, 0x205F, 0x3000, 0xFEFF]) =
     (n \<in> set [0x09, 0x0A, 0x0B, 0x0C, 0x0D, 0x20, 0xA0 :: nat])"
  by auto

lemma isWhiteSpaceUnit_of_char: "isWhiteSpaceUnit (of_char c) = isWhiteSpace c"
proof -
  have "isWhiteSpaceUnit (of_char c) =
      ((of_char c :: nat) \<in> set [0x0009, 0x000A, 0x000B, 0x000C, 0x000D, 0x0020, 0x00A0, 0x1680,
                0x2000, 0x2001, 0x2002, 0x2003, 0x2004, 0x2005, 0x2006, 0x2007,
                0x2008, 0x2009, 0x200A, 0x2028, 0x2029, 0x202F, 0x205F, 0x3000, 0xFEFF])"
    by (simp add: isWhiteSpaceUnit_def word_unat_eq_iff unat_of_char)
  also have "\<dots> = ((of_char c :: nat) \<in> set [0x09, 0x0A, 0x0B, 0x0C, 0x0D, 0x20, 0xA0])"
    by (rule whiteSpace_below_256) (rule nat_of_char_less_256)
  also have "\<dots> = isWhiteSpace c"
    by (simp add: isWhiteSpace_def char_eq_code)
  finally show ?thesis .
qed

lemma stripped_of_char:
  "(of_char c = (0x2E :: unit16) \<or> of_char c = (0x2C :: unit16)) =
     (c = CHR ''.'' \<or> c = CHR '','')"
  by (simp add: word_unat_eq_iff unat_of_char char_eq_code)

lemma lowerLatin1_of_char: "lowerLatin1 (of_char c) = of_char (lowerUnit c)"
proof -
  let ?n = "of_char c :: nat"
  let ?capital = "(65 \<le> ?n \<and> ?n \<le> 90) \<or> (192 \<le> ?n \<and> ?n \<le> 222 \<and> ?n \<noteq> 215)"
  have l: "lowerLatin1 (of_char c) = (if ?capital then of_char c + 32 else of_char c)"
    by (simp only: lowerLatin1_def Let_def unat_of_char)
  have u: "lowerUnit c = (if ?capital then char_of (?n + 32) else c)"
    by (simp only: lowerUnit_def Let_def)
  show ?thesis
  proof (cases ?capital)
    case True
    then have b: "?n + 32 < 256" by auto
    then have "unat (of_char (char_of (?n + 32)) :: unit16) = ?n + 32"
      by (simp add: unat_of_char of_char_of)
    moreover have "unat (of_char c + 32 :: unit16) = ?n + 32"
      using b by (simp add: unat_word_ariths unat_of_char)
    ultimately have "(of_char c + 32 :: unit16) = of_char (char_of (?n + 32))"
      by (simp add: word_unat_eq_iff)
    then show ?thesis
      unfolding l u if_P [OF True] .
  next
    case False
    show ?thesis
      unfolding l u if_not_P [OF False] ..
  qed
qed

lemma toLowerCaseUnits_js: "toLowerCaseUnits tbl (js s) = js (toLowerCase s)"
proof -
  have "list_all (\<lambda>c. unat c < 256) (js s)"
    by (simp add: js_def list_all_iff unat_of_char nat_of_char_less_256)
  then show ?thesis
    by (simp add: toLowerCaseUnits_def js_def toLowerCase_def lowerLatin1_of_char)
qed

lemma replaceClass_js:
  "replaceClass (\<lambda>c. c = 0x2E \<or> c = 0x2C) [] (js s) =
     js (replaceClass (\<lambda>c. c = CHR ''.'' \<or> c = CHR '','') [] s)"
  by (induction s) (simp_all add: js_def stripped_of_char)

lemma dropWhile_js:
  "dropWhile isWhiteSpaceUnit (js s) = js (dropWhile isWhiteSpace s)"
  by (induction s) (simp_all add: js_def isWhiteSpaceUnit_of_char)

lemma replaceClassPlus_js:
  "replaceClassPlus isWhiteSpaceUnit [0x5F] (js s) = js (replaceClassPlus isWhiteSpace ''_'' s)"
proof (induction isWhiteSpace "''_''" s rule: replaceClassPlus.induct)
  case 1
  then show ?case by (simp add: js_def)
next
  case (2 c cs)
  have u: "js ''_'' = [0x5F]"
    by (simp add: js_def)
  show ?case
  proof (cases "isWhiteSpace c")
    case True
    with 2(1) show ?thesis
      using dropWhile_js [of cs]
      by (simp add: js_def isWhiteSpaceUnit_of_char)
  next
    case False
    with 2(2) show ?thesis
      by (simp add: js_def isWhiteSpaceUnit_of_char)
  qed
qed

lemma subjectSlugUnits_js: "subjectSlugUnits tbl (js s) = js (subjectSlug s)"
  by (simp add: subjectSlugUnits_def subjectSlug_def toLowerCaseUnits_js replaceClass_js
        replaceClassPlus_js)

lemma uriUnescapedUnit_of_char: "uriUnescapedUnit (of_char c) = uriUnescaped c"
  by (simp add: uriUnescapedUnit_def uriUnescaped_def unat_of_char char_eq_code Let_def)

lemma not_surrogate_below_256:
  "unat c < 256 \<Longrightarrow> \<not> isLeadSurrogate c \<and> \<not> isTrailSurrogate c"
  by (simp add: isLeadSurrogate_def isTrailSurrogate_def)

lemma not_surrogate_of_char:
  "\<not> isLeadSurrogate (of_char c) \<and> \<not> isTrailSurrogate (of_char c)"
  by (rule not_surrogate_below_256) (simp add: unat_of_char nat_of_char_less_256)

lemma utf8_below_256:
  "n < 256 \<Longrightarrow> utf8 n = (if n < 128 then [n] else [192 + n div 64, 128 + n mod 64])"
  by (simp add: utf8_def)

lemma percentOctets_of_char:
  "percentOctets (of_char c) = concat (map percentByte (utf8Bytes c))"
  by (simp add: percentOctets_def utf8_below_256 [OF nat_of_char_less_256] utf8Bytes_def Let_def)

lemma encodeURIComponentUnits_js: "encodeURIComponentUnits (js s) = Some (encodeURIComponent s)"
  by (induction s)
     (simp_all add: js_def encodeURIComponent_def uriUnescapedUnit_of_char not_surrogate_of_char
        unat_of_char percentOctets_of_char)

lemma slug_agrees:
  "encodeURIComponentUnits (subjectSlugUnits tbl (js s)) =
     Some (encodeURIComponent (subjectSlug s))"
  by (simp add: subjectSlugUnits_js encodeURIComponentUnits_js)

subsection \<open>The claim\<close>

lemmas slug_eval =
  js_def subjectSlugUnits_def toLowerCaseUnits_def lowerLatin1_def unchangedCase_def
  isWhiteSpaceUnit_def uriUnescapedUnit_def isLeadSurrogate_def isTrailSurrogate_def
  pairCodePoint_def percentOctets_def utf8_def percentByte_def hexDigit_def
  char_of_def bit_Suc_0_iff

text \<open>
  Claim C6, as stated, gives every subject string a slug. For a subject that is one
  unpaired surrogate the first three steps change nothing and \<^verbatim>\<open>encodeURIComponent\<close>
  throws: no path segment comes out.
\<close>

theorem subject_with_unpaired_surrogate_has_no_slug:
  "encodeURIComponentUnits (subjectSlugUnits unchangedCase [0xD83D]) = None"
  by (simp add: slug_eval)

text \<open>
  Claim C6, amended. For every subject string the path segment that lines 116 to 120
  compute is the slug of the specification: lower-cased, commas and periods stripped,
  each run of white space replaced by one underscore, percent-encoded; it exists
  whenever the slug has no unpaired surrogate. The segment in the URL that \<^verbatim>\<open>GET\<close>
  requests is this slug, and the subject \<^verbatim>\<open>Science Fiction, Fantasy.\<close> gives
  \<^verbatim>\<open>science_fiction_fantasy\<close>.
\<close>

theorem subjectSlug_spec:
  "encodeURIComponentUnits (subjectSlugUnits beyondLatin1 s) = specSlugUnits beyondLatin1 s \<and>
   (codePoints (subjectSlugUnits beyondLatin1 s) \<noteq> None \<longrightarrow>
      (\<exists>segment. encodeURIComponentUnits (subjectSlugUnits beyondLatin1 s) = Some segment)) \<and>
   specSlugUnits beyondLatin1 (js p) = Some (encodeURIComponent (subjectSlug p)) \<and>
   subjectUrl (subjectSlug p) =
     ''https://openlibrary.org/subjects/'' @ encodeURIComponent (subjectSlug p) @
     ''.json?limit=30'' \<and>
   specSlugUnits beyondLatin1 (js ''Science Fiction, Fantasy.'') = Some ''science_fiction_fantasy'' \<and>
   encodeURIComponent (subjectSlug ''Science Fiction, Fantasy.'') = ''science_fiction_fantasy'' \<and>
   subjectSlug ''Science Fiction, Fantasy.'' = ''science_fiction_fantasy''"
proof (intro conjI impI)
  show "subjectSlug ''Science Fiction, Fantasy.'' = ''science_fiction_fantasy''"
    by code_simp
  show "encodeURIComponentUnits (subjectSlugUnits beyondLatin1 s) = specSlugUnits beyondLatin1 s"
    by (rule subjectSlugUnits_spec)
  show "\<exists>segment. encodeURIComponentUnits (subjectSlugUnits beyondLatin1 s) = Some segment"
    if "codePoints (subjectSlugUnits beyondLatin1 s) \<noteq> None"
    using that by (auto simp: encodeURIComponentUnits_spec specPercentEncode_def)
  show p: "specSlugUnits beyondLatin1 (js p) = Some (encodeURIComponent (subjectSlug p))"
    for p
    by (simp add: slug_agrees flip: subjectSlugUnits_spec)
  show "subjectUrl (subjectSlug p) =
     ''https://openlibrary.org/subjects/'' @ encodeURIComponent (subjectSlug p) @
     ''.json?limit=30''"
    by (simp add: subjectUrl_def OPEN_LIBRARY_BASE_def)
  show e: "encodeURIComponent (subjectSlug ''Science Fiction, Fantasy.'') = ''science_fiction_fantasy''"
    by code_simp
  show "specSlugUnits beyondLatin1 (js ''Science Fiction, Fantasy.'') = Some ''science_fiction_fantasy''"
    by (simp only: p e)
qed

theorem subjectSlug_spec_witness:
  "codePoints (subjectSlugUnits unchangedCase (js ''Rock & Roll / Pop'')) \<noteq> None \<and>
   specSlugUnits unchangedCase (js ''Rock & Roll / Pop'') = Some ''rock_%26_roll_%2F_pop'' \<and>
   specSlugUnits unchangedCase [0xC9, 0x63, 0x6F, 0x6C, 0x65] = Some ''%C3%A9cole'' \<and>
   specSlugUnits unchangedCase [0x65E5, 0x672C, 0x3000, 0x53F2] =
     Some ''%E6%97%A5%E6%9C%AC_%E5%8F%B2'' \<and>
   specSlugUnits unchangedCase [0xD83D, 0xDE00] = Some ''%F0%9F%98%80'' \<and>
   encodeURIComponent (subjectSlug ''Rock & Roll / Pop'') = ''rock_%26_roll_%2F_pop''"
proof -
  note spec = subjectSlug_spec [THEN conjunct1, symmetric]
  have w: "codePoints (subjectSlugUnits unchangedCase (js ''Rock & Roll / Pop'')) \<noteq> None"
    by (simp add: slug_eval)
  have 1: "specSlugUnits unchangedCase (js ''Rock & Roll / Pop'') = Some ''rock_%26_roll_%2F_pop''"
    unfolding spec by (simp add: slug_eval)
  have 2: "specSlugUnits unchangedCase [0xC9, 0x63, 0x6F, 0x6C, 0x65] = Some ''%C3%A9cole''"
    unfolding spec by (simp add: slug_eval)
  have 3: "specSlugUnits unchangedCase [0x65E5, 0x672C, 0x3000, 0x53F2] =
     Some ''%E6%97%A5%E6%9C%AC_%E5%8F%B2''"
    unfolding spec by (simp add: slug_eval)
  have 4: "specSlugUnits unchangedCase [0xD83D, 0xDE00] = Some ''%F0%9F%98%80''"
    unfolding spec by (simp add: slug_eval)
  from subjectSlug_spec [of unchangedCase _ "''Rock & Roll / Pop''", THEN conjunct2, THEN conjunct2,
      THEN conjunct1] 1
  have 5: "encodeURIComponent (subjectSlug ''Rock & Roll / Pop'') = ''rock_%26_roll_%2F_pop''"
    by simp
  from w 1 2 3 4 5 show ?thesis by blast
qed



section \<open>Saving a book\<close>

subsection \<open>The shape of the time stamp\<close>





















subsection \<open>The claim\<close>





end
